theory Spec2Isabelle
  imports Main
begin

section \<open>Data model\<close>

text \<open>
  A post as the feed endpoint returns it and as the screen holds it:
  \<^verbatim>\<open>{ post_id, post_content, timestamp, like_status, dislike_status, topic: { id, topic_name } }\<close>.
  The topic's field \<^verbatim>\<open>id\<close> is named \<open>topic_id\<close> here. Text is a list of bytes
  (UTF-8); no function of the screen looks inside a text.
\<close>

record topic =
  topic_id :: int
  topic_name :: string

record post =
  post_id :: int
  post_content :: string
  timestamp :: string
  like_status :: bool
  dislike_status :: bool
  topic :: topic

text \<open>
  The component state of \<^verbatim>\<open>CompleteFeedScreen\<close>: one field per \<^verbatim>\<open>useState\<close>
  hook, with the initial values of the hooks.
\<close>

record feed_state =
  posts :: "post list"
  loading :: bool
  refreshing :: bool
  loadingMore :: bool
  hasMore :: bool
  error :: "string option"
  offset :: nat

definition initial_state :: feed_state where
  "initial_state =
     \<lparr>posts = [], loading = True, refreshing = False, loadingMore = False,
      hasMore = True, error = None, offset = 0\<rparr>"

definition LIMIT :: nat where
  "LIMIT = 20"

text \<open>
  The body of a feed response, \<^verbatim>\<open>{ posts?: Post[], has_more?: bool }\<close>. A field
  that is absent is \<open>None\<close>: \<^verbatim>\<open>data.posts\<close> is then falsy and
  \<^verbatim>\<open>data.has_more\<close> is \<^verbatim>\<open>undefined\<close>. An empty array is truthy in
  JavaScript, so \<open>Some []\<close> takes the branch of a present array. A field that
  is present has the type the API gives it: an array of posts, a boolean.
\<close>

record feed_page =
  posts_field :: "post list option"
  has_more_field :: "bool option"

text \<open>
  What \<^verbatim>\<open>await fetch(...)\<close> followed by \<^verbatim>\<open>await response.json()\<close> can do:
  reject (a transport failure), or resolve with a status and a body. The body is
  \<open>None\<close> when reading it throws (\<^verbatim>\<open>response.json()\<close> rejects, or the parsed
  value is \<^verbatim>\<open>null\<close> and \<^verbatim>\<open>data.posts\<close> throws).
\<close>

datatype fetch_outcome =
  FetchRejected
  | FetchResponse nat "feed_page option"

text \<open>\<^verbatim>\<open>response.ok\<close>: the status is in the range 200 to 299.\<close>

definition response_ok :: "nat \<Rightarrow> bool" where
  "response_ok status = (200 \<le> status \<and> status \<le> 299)"

section \<open>Feed pagination: \<^verbatim>\<open>loadPosts\<close>\<close>

text \<open>
  The fallback posts of the \<^verbatim>\<open>catch\<close> block. Their timestamps are
  \<^verbatim>\<open>new Date().toISOString()\<close>, the parameter \<open>now\<close>. Each content starts
  with an emoji, written here as its four UTF-8 bytes.
\<close>

definition placeholder_posts :: "string \<Rightarrow> post list" where
  "placeholder_posts now =
     [\<lparr>post_id = 1,
       post_content = [CHR 0xF0, CHR 0x9F, CHR 0xA7, CHR 0xA0] @
         '' Your brain grows with effort! Embrace challenges and see mistakes as learning opportunities. Growth mindset is the key to unlocking your potential!'',
       timestamp = now, like_status = False, dislike_status = False,
       topic = \<lparr>topic_id = 1, topic_name = ''Growth Mindset''\<rparr>\<rparr>,
      \<lparr>post_id = 2,
       post_content = [CHR 0xF0, CHR 0x9F, CHR 0x93, CHR 0x9A] @
         '' Active recall beats passive reading every time. Quiz yourself, create flashcards, teach others. Your brain learns by doing, not just seeing!'',
       timestamp = now, like_status = False, dislike_status = False,
       topic = \<lparr>topic_id = 2, topic_name = ''Study Techniques''\<rparr>\<rparr>,
      \<lparr>post_id = 3,
       post_content = [CHR 0xF0, CHR 0x9F, CHR 0x94, CHR 0x84] @
         '' Spaced repetition is learning's superpower. Review material at increasing intervals. Your memory will thank you with better retention!'',
       timestamp = now, like_status = False, dislike_status = False,
       topic = \<lparr>topic_id = 3, topic_name = ''Memory''\<rparr>\<rparr>,
      \<lparr>post_id = 4,
       post_content = [CHR 0xF0, CHR 0x9F, CHR 0x8E, CHR 0xAF] @
         '' Focus on deep work! Single-tasking leads to better results than multitasking. Give your brain the attention it deserves for quality learning.'',
       timestamp = now, like_status = False, dislike_status = False,
       topic = \<lparr>topic_id = 4, topic_name = ''Focus''\<rparr>\<rparr>,
      \<lparr>post_id = 5,
       post_content = [CHR 0xF0, CHR 0x9F, CHR 0x92, CHR 0xA1] @
         '' Learning is not a spectator sport. Engage actively with material through questioning, discussing, and applying concepts in real situations.'',
       timestamp = now, like_status = False, dislike_status = False,
       topic = \<lparr>topic_id = 5, topic_name = ''Active Learning''\<rparr>\<rparr>]"

text \<open>
  The request of \<^verbatim>\<open>loadPosts\<close>: \<^verbatim>\<open>limit=LIMIT\<close> and
  \<^verbatim>\<open>offset=currentOffset\<close>, where \<^verbatim>\<open>currentOffset = reset ? 0 : offset\<close>.
\<close>

record feed_request =
  req_limit :: nat
  req_offset :: nat

definition loadPosts_request :: "bool \<Rightarrow> feed_state \<Rightarrow> feed_request" where
  "loadPosts_request reset st =
     \<lparr>req_limit = LIMIT, req_offset = (if reset then 0 else offset st)\<rparr>"

text \<open>The statements of \<^verbatim>\<open>loadPosts\<close> before the request is awaited.\<close>

definition loadPosts_begin :: "bool \<Rightarrow> feed_state \<Rightarrow> feed_state" where
  "loadPosts_begin reset st =
     (if reset then st\<lparr>loading := True, offset := 0\<rparr>
      else st\<lparr>loadingMore := True\<rparr>)\<lparr>error := None\<rparr>"

text \<open>The \<^verbatim>\<open>catch\<close> block.\<close>

definition loadPosts_catch :: "bool \<Rightarrow> string \<Rightarrow> feed_state \<Rightarrow> feed_state" where
  "loadPosts_catch reset now st =
     (let st1 = st\<lparr>error := Some ''Failed to load posts from API''\<rparr>;
          st2 = (if reset then st1\<lparr>posts := placeholder_posts now\<rparr> else st1)
      in st2\<lparr>hasMore := False\<rparr>)"

text \<open>The branch \<^verbatim>\<open>if (data.posts) { ... } else { ... }\<close> on a parsed body.\<close>

definition loadPosts_data :: "bool \<Rightarrow> feed_page \<Rightarrow> feed_state \<Rightarrow> feed_state" where
  "loadPosts_data reset data st =
     (case posts_field data of
        Some page \<Rightarrow>
          (let st1 = (if reset then st\<lparr>posts := page, offset := length page\<rparr>
                      else st\<lparr>posts := posts st @ page, offset := offset st + length page\<rparr>)
           in (case has_more_field data of
                 Some b \<Rightarrow> st1\<lparr>hasMore := b\<rparr>
               | None \<Rightarrow> st1\<lparr>hasMore := (length page = LIMIT)\<rparr>))
      | None \<Rightarrow> st\<lparr>error := Some ''No posts received from API'', hasMore := False\<rparr>)"

text \<open>The \<^verbatim>\<open>try\<close> block from the resolution of the request on.\<close>

definition loadPosts_settle ::
  "bool \<Rightarrow> string \<Rightarrow> fetch_outcome \<Rightarrow> feed_state \<Rightarrow> feed_state" where
  "loadPosts_settle reset now outcome st =
     (case outcome of
        FetchRejected \<Rightarrow> loadPosts_catch reset now st
      | FetchResponse status body \<Rightarrow>
          (if \<not> response_ok status then loadPosts_catch reset now st
           else (case body of
                   None \<Rightarrow> loadPosts_catch reset now st
                 | Some data \<Rightarrow> loadPosts_data reset data st)))"

text \<open>The \<^verbatim>\<open>finally\<close> block.\<close>

definition loadPosts_finally :: "feed_state \<Rightarrow> feed_state" where
  "loadPosts_finally st = st\<lparr>loading := False, refreshing := False, loadingMore := False\<rparr>"

definition loadPosts :: "bool \<Rightarrow> string \<Rightarrow> fetch_outcome \<Rightarrow> feed_state \<Rightarrow> feed_state" where
  "loadPosts reset now outcome st =
     loadPosts_finally (loadPosts_settle reset now outcome (loadPosts_begin reset st))"

text \<open>
  \<^verbatim>\<open>handleRefresh\<close> and \<^verbatim>\<open>handleLoadMore\<close>. The second issues a request only
  behind its guard; \<open>handleLoadMore_request\<close> is the request it issues, if any.
\<close>

definition handleRefresh :: "string \<Rightarrow> fetch_outcome \<Rightarrow> feed_state \<Rightarrow> feed_state" where
  "handleRefresh now outcome st = loadPosts True now outcome (st\<lparr>refreshing := True\<rparr>)"

definition handleLoadMore_request :: "feed_state \<Rightarrow> feed_request option" where
  "handleLoadMore_request st =
     (if \<not> loadingMore st \<and> hasMore st \<and> \<not> loading st
      then Some (loadPosts_request False st) else None)"

definition handleLoadMore :: "string \<Rightarrow> fetch_outcome \<Rightarrow> feed_state \<Rightarrow> feed_state" where
  "handleLoadMore now outcome st =
     (if \<not> loadingMore st \<and> hasMore st \<and> \<not> loading st
      then loadPosts False now outcome st else st)"

section \<open>Optimistic feedback: \<^verbatim>\<open>handleLike\<close> and \<^verbatim>\<open>handleDislike\<close>\<close>

text \<open>\<^verbatim>\<open>posts.findIndex(p => p.post_id === postId)\<close>; \<open>None\<close> is the result -1.\<close>

fun findIndex :: "post list \<Rightarrow> int \<Rightarrow> nat option" where
  "findIndex [] pid = None"
| "findIndex (p # ps) pid =
     (if post_id p = pid then Some 0
      else (case findIndex ps pid of None \<Rightarrow> None | Some i \<Rightarrow> Some (Suc i)))"

text \<open>The result of the \<^verbatim>\<open>PUT\<close> request: rejected, or a response with a status.\<close>

datatype put_outcome =
  PutRejected
  | PutResponse nat

definition put_failed :: "put_outcome \<Rightarrow> bool" where
  "put_failed outcome =
     (case outcome of PutRejected \<Rightarrow> True | PutResponse status \<Rightarrow> \<not> response_ok status)"

text \<open>The two \<^verbatim>\<open>setPosts\<close> updates of \<^verbatim>\<open>handleLike\<close>.\<close>

definition like_optimistic :: "int \<Rightarrow> bool \<Rightarrow> post list \<Rightarrow> post list" where
  "like_optimistic pid newLikeStatus ps =
     map (\<lambda>p. if post_id p = pid
               then p\<lparr>like_status := newLikeStatus, dislike_status := False\<rparr> else p) ps"

definition like_revert :: "int \<Rightarrow> post list \<Rightarrow> post list" where
  "like_revert pid ps =
     map (\<lambda>p. if post_id p = pid then p\<lparr>like_status := \<not> like_status p\<rparr> else p) ps"

definition handleLike :: "int \<Rightarrow> put_outcome \<Rightarrow> feed_state \<Rightarrow> feed_state" where
  "handleLike pid outcome st =
     (case findIndex (posts st) pid of
        None \<Rightarrow> st
      | Some postIndex \<Rightarrow>
          (let newLikeStatus = \<not> like_status (posts st ! postIndex);
               st1 = st\<lparr>posts := like_optimistic pid newLikeStatus (posts st)\<rparr>
           in if put_failed outcome then st1\<lparr>posts := like_revert pid (posts st1)\<rparr>
              else st1))"

text \<open>The two \<^verbatim>\<open>setPosts\<close> updates of \<^verbatim>\<open>handleDislike\<close>.\<close>

definition dislike_optimistic :: "int \<Rightarrow> bool \<Rightarrow> post list \<Rightarrow> post list" where
  "dislike_optimistic pid newDislikeStatus ps =
     map (\<lambda>p. if post_id p = pid
               then p\<lparr>dislike_status := newDislikeStatus, like_status := False\<rparr> else p) ps"

definition dislike_revert :: "int \<Rightarrow> post list \<Rightarrow> post list" where
  "dislike_revert pid ps =
     map (\<lambda>p. if post_id p = pid then p\<lparr>dislike_status := \<not> dislike_status p\<rparr> else p) ps"

definition handleDislike :: "int \<Rightarrow> put_outcome \<Rightarrow> feed_state \<Rightarrow> feed_state" where
  "handleDislike pid outcome st =
     (case findIndex (posts st) pid of
        None \<Rightarrow> st
      | Some postIndex \<Rightarrow>
          (let newDislikeStatus = \<not> dislike_status (posts st ! postIndex);
               st1 = st\<lparr>posts := dislike_optimistic pid newDislikeStatus (posts st)\<rparr>
           in if put_failed outcome then st1\<lparr>posts := dislike_revert pid (posts st1)\<rparr>
              else st1))"

section \<open>The screen as a transition system\<close>

text \<open>
  The events of the screen, each with what the environment answers: the mount effect
  (\<^verbatim>\<open>loadPosts(true)\<close>), pull-to-refresh, end of list reached, and the two buttons
  of a post. Each event is run to completion before the next.
\<close>

datatype event =
  Mount string fetch_outcome
  | Refresh string fetch_outcome
  | EndReached string fetch_outcome
  | TapLike int put_outcome
  | TapDislike int put_outcome

fun step :: "event \<Rightarrow> feed_state \<Rightarrow> feed_state" where
  "step (Mount now outcome) st = loadPosts True now outcome st"
| "step (Refresh now outcome) st = handleRefresh now outcome st"
| "step (EndReached now outcome) st = handleLoadMore now outcome st"
| "step (TapLike pid outcome) st = handleLike pid outcome st"
| "step (TapDislike pid outcome) st = handleDislike pid outcome st"

fun run :: "event list \<Rightarrow> feed_state \<Rightarrow> feed_state" where
  "run [] st = st"
| "run (e # es) st = run es (step e st)"

text \<open>A response with status 200 that carries a page and no \<^verbatim>\<open>has_more\<close> field.\<close>

definition ok_page :: "post list \<Rightarrow> fetch_outcome" where
  "ok_page page = FetchResponse 200 (Some \<lparr>posts_field = Some page, has_more_field = None\<rparr>)"

definition ok_page_more :: "post list \<Rightarrow> bool \<Rightarrow> fetch_outcome" where
  "ok_page_more page b =
     FetchResponse 200 (Some \<lparr>posts_field = Some page, has_more_field = Some b\<rparr>)"

text \<open>A post for the examples.\<close>

definition sample_post :: "int \<Rightarrow> bool \<Rightarrow> bool \<Rightarrow> post" where
  "sample_post pid l d =
     \<lparr>post_id = pid, post_content = ''text'', timestamp = ''2025-01-01T00:00:00.000Z'',
      like_status = l, dislike_status = d,
      topic = \<lparr>topic_id = 1, topic_name = ''Memory''\<rparr>\<rparr>"

section \<open>Notions used in the properties\<close>

text \<open>
  The page a load receives when it succeeds: the response is ok, its body can be read
  and has a posts array.
\<close>

fun returned_page :: "fetch_outcome \<Rightarrow> post list option" where
  "returned_page FetchRejected = None"
| "returned_page (FetchResponse status body) =
     (if response_ok status then (case body of None \<Rightarrow> None | Some data \<Rightarrow> posts_field data)
      else None)"

text \<open>The load ends in the \<^verbatim>\<open>catch\<close> block.\<close>

fun fetch_throws :: "fetch_outcome \<Rightarrow> bool" where
  "fetch_throws FetchRejected = True"
| "fetch_throws (FetchResponse status body) = (\<not> response_ok status \<or> body = None)"

text \<open>A post is exclusive when its two feedback flags are not both true.\<close>

definition exclusive :: "post \<Rightarrow> bool" where
  "exclusive p = (\<not> (like_status p \<and> dislike_status p))"

fun is_feedback :: "event \<Rightarrow> bool" where
  "is_feedback (TapLike pid outcome) = True"
| "is_feedback (TapDislike pid outcome) = True"
| "is_feedback e = False"

text \<open>
  The posts a load adds: the returned page when the load succeeds, nothing otherwise.
  \<open>load_more_all\<close> runs \<^verbatim>\<open>loadPosts(false)\<close> once for each response of a list.
\<close>

definition page_of :: "fetch_outcome \<Rightarrow> post list" where
  "page_of outcome = (case returned_page outcome of Some page \<Rightarrow> page | None \<Rightarrow> [])"

definition succeeded :: "string \<times> fetch_outcome \<Rightarrow> bool" where
  "succeeded r = (returned_page (snd r) \<noteq> None)"

fun load_more_all :: "(string \<times> fetch_outcome) list \<Rightarrow> feed_state \<Rightarrow> feed_state" where
  "load_more_all [] st = st"
| "load_more_all (r # rs) st = load_more_all rs (loadPosts False (fst r) (snd r) st)"

text \<open>
  The feedback flags of a post set aside: what of a post no operation of the screen
  changes.
\<close>

definition strip_feedback :: "post \<Rightarrow> post" where
  "strip_feedback p = p\<lparr>like_status := False, dislike_status := False\<rparr>"

fun is_reset :: "event \<Rightarrow> bool" where
  "is_reset (Mount now outcome) = True"
| "is_reset (Refresh now outcome) = True"
| "is_reset e = False"

text \<open>
  The events whose page does not repeat an identity: the page of a load has pairwise
  distinct identities and, when it is appended, shares none with the posts held.
  \<open>fresh_run\<close> asks this of every event of a run, in the state it meets.
\<close>

fun fresh_page :: "event \<Rightarrow> feed_state \<Rightarrow> bool" where
  "fresh_page (Mount now outcome) st = distinct (map post_id (page_of outcome))"
| "fresh_page (Refresh now outcome) st = distinct (map post_id (page_of outcome))"
| "fresh_page (EndReached now outcome) st =
     (distinct (map post_id (page_of outcome))
      \<and> set (map post_id (page_of outcome)) \<inter> set (map post_id (posts st)) = {})"
| "fresh_page e st = True"

fun fresh_run :: "event list \<Rightarrow> feed_state \<Rightarrow> bool" where
  "fresh_run [] st = True"
| "fresh_run (e # es) st = (fresh_page e st \<and> fresh_run es (step e st))"

text \<open>A page of \<open>n\<close> posts with the identities 1 to \<open>n\<close>, for the examples.\<close>

definition sample_page :: "nat \<Rightarrow> post list" where
  "sample_page n = map (\<lambda>i. sample_post (int i) False False) [1 ..< Suc n]"

section \<open>Transport client: \<^verbatim>\<open>ApiService.makeRequest\<close>\<close>

text \<open>
  \<^verbatim>\<open>SecureStorage.getApiKey\<close>: the stored key, or \<^verbatim>\<open>null\<close> when the store has
  none or reading it throws.
\<close>

datatype store_read =
  StoreThrew
  | StoreValue "string option"

definition getApiKey :: "store_read \<Rightarrow> string option" where
  "getApiKey r = (case r of StoreThrew \<Rightarrow> None | StoreValue v \<Rightarrow> v)"

text \<open>
  The errors \<^verbatim>\<open>makeRequest\<close> throws, one constructor per \<^verbatim>\<open>throw\<close>:
  \<open>MissingCredential\<close> is \<^verbatim>\<open>'API key not found. Please configure the app.'\<close>,
  \<open>InvalidCredential\<close> is \<^verbatim>\<open>'Invalid API key. Please reconfigure the app.'\<close>,
  \<open>HttpError status\<close> is \<^verbatim>\<open>'HTTP error! status: ' + status\<close>, and
  \<open>NetworkError\<close> is the rejection of \<^verbatim>\<open>fetch\<close>, rethrown as it is.
\<close>

datatype transport_error =
  MissingCredential
  | InvalidCredential
  | HttpError nat
  | NetworkError

text \<open>
  The outbound call: the endpoint and the key sent in the header \<^verbatim>\<open>X-API-Key\<close>.
  The network is a function from the call to \<open>None\<close> (\<^verbatim>\<open>fetch\<close> rejects) or the
  status of the response.
\<close>

record http_call =
  call_endpoint :: string
  call_api_key :: string

text \<open>
  \<^verbatim>\<open>makeRequest\<close> returns the calls it has made together with the thrown error or
  the response's status. \<^verbatim>\<open>!apiKey\<close> holds for \<^verbatim>\<open>null\<close> and for the empty
  string.
\<close>

definition makeRequest ::
  "store_read \<Rightarrow> (http_call \<Rightarrow> nat option) \<Rightarrow> string \<Rightarrow> http_call list \<times> (transport_error + nat)" where
  "makeRequest store net endpoint =
     (case getApiKey store of
        None \<Rightarrow> ([], Inl MissingCredential)
      | Some apiKey \<Rightarrow>
          (if apiKey = [] then ([], Inl MissingCredential)
           else (let call = \<lparr>call_endpoint = endpoint, call_api_key = apiKey\<rparr>
                 in (case net call of
                       None \<Rightarrow> ([call], Inl NetworkError)
                     | Some status \<Rightarrow>
                         (if status = 401 then ([call], Inl InvalidCredential)
                          else if \<not> response_ok status then ([call], Inl (HttpError status))
                          else ([call], Inr status))))))"

section \<open>Properties\<close>

subsection \<open>Loads\<close>

lemmas loadPosts_defs =
  loadPosts_def loadPosts_finally_def loadPosts_settle_def loadPosts_catch_def
  loadPosts_begin_def loadPosts_data_def

lemma posts_loadPosts:
  "posts (loadPosts reset now outcome st) =
     (case returned_page outcome of
        Some page \<Rightarrow> (if reset then page else posts st @ page)
      | None \<Rightarrow> (if fetch_throws outcome \<and> reset then placeholder_posts now else posts st))"
  by (cases outcome)
    (auto simp: loadPosts_defs Let_def split: option.splits)

lemma offset_loadPosts:
  "offset (loadPosts reset now outcome st) =
     (case returned_page outcome of
        Some page \<Rightarrow> (if reset then length page else offset st + length page)
      | None \<Rightarrow> (if reset then 0 else offset st))"
  by (cases outcome)
    (auto simp: loadPosts_defs Let_def split: option.splits)

lemma hasMore_loadPosts_throws:
  "fetch_throws outcome \<Longrightarrow> \<not> hasMore (loadPosts reset now outcome st)"
  by (cases outcome)
    (auto simp: loadPosts_defs Let_def split: option.splits)

lemma error_loadPosts_throws:
  "fetch_throws outcome \<Longrightarrow>
     error (loadPosts reset now outcome st) = Some ''Failed to load posts from API''"
  by (cases outcome)
    (auto simp: loadPosts_defs Let_def split: option.splits)

lemma flags_loadPosts:
  "\<not> loading (loadPosts reset now outcome st) \<and>
   \<not> refreshing (loadPosts reset now outcome st) \<and>
   \<not> loadingMore (loadPosts reset now outcome st)"
  by (cases outcome)
    (auto simp: loadPosts_defs Let_def split: option.splits)

lemma placeholder_ids: "map post_id (placeholder_posts now) = [1, 2, 3, 4, 5]"
  by (simp add: placeholder_posts_def)

lemma placeholder_length: "length (placeholder_posts now) = 5"
  by (simp add: placeholder_posts_def)

lemma placeholder_flags:
  "p \<in> set (placeholder_posts now) \<Longrightarrow> \<not> like_status p \<and> \<not> dislike_status p"
  by (auto simp: placeholder_posts_def)

text \<open>
  C10. A reset load whose response is ok and whose body has no posts array keeps the
  held posts and substitutes no placeholders, but ends with the offset 0, \<open>hasMore\<close>
  false and the error set: the state is changed, and when posts are held the offset no
  longer equals their count.
\<close>

theorem C10_reset_without_posts_array:
  assumes "response_ok status" and "posts_field data = None"
  shows "posts (loadPosts True now (FetchResponse status (Some data)) st) = posts st
       \<and> offset (loadPosts True now (FetchResponse status (Some data)) st) = 0
       \<and> \<not> hasMore (loadPosts True now (FetchResponse status (Some data)) st)
       \<and> error (loadPosts True now (FetchResponse status (Some data)) st)
           = Some ''No posts received from API''
       \<and> (posts st \<noteq> [] \<longrightarrow>
            offset (loadPosts True now (FetchResponse status (Some data)) st)
              \<noteq> length (posts (loadPosts True now (FetchResponse status (Some data)) st)))
       \<and> (offset st \<noteq> 0 \<or> hasMore st \<longrightarrow>
            loadPosts True now (FetchResponse status (Some data)) st \<noteq> st)"
proof -
  let ?st' = "loadPosts True now (FetchResponse status (Some data)) st"
  have p: "posts ?st' = posts st" and o: "offset ?st' = 0" and h: "\<not> hasMore ?st'"
    and e: "error ?st' = Some ''No posts received from API''"
    using assms by (simp_all add: loadPosts_defs)
  have "?st' \<noteq> st" if "offset st \<noteq> 0 \<or> hasMore st"
  proof
    assume "?st' = st"
    then have "offset ?st' = offset st" and "hasMore ?st' = hasMore st" by simp_all
    with o h that show False by auto
  qed
  with p o h e show ?thesis by auto
qed

theorem C10_witness:
  "response_ok 200
   \<and> posts_field \<lparr>posts_field = None, has_more_field = None\<rparr> = None
   \<and> posts (loadPosts True ''t''
        (FetchResponse 200 (Some \<lparr>posts_field = None, has_more_field = None\<rparr>))
        (initial_state\<lparr>posts := [sample_post 7 False False], offset := 1\<rparr>))
       = [sample_post 7 False False]
   \<and> offset (loadPosts True ''t''
        (FetchResponse 200 (Some \<lparr>posts_field = None, has_more_field = None\<rparr>))
        (initial_state\<lparr>posts := [sample_post 7 False False], offset := 1\<rparr>)) = 0
   \<and> loadPosts True ''t''
        (FetchResponse 200 (Some \<lparr>posts_field = None, has_more_field = None\<rparr>))
        (initial_state\<lparr>posts := [sample_post 7 False False], offset := 1\<rparr>)
       \<noteq> initial_state\<lparr>posts := [sample_post 7 False False], offset := 1\<rparr>"
  using C10_reset_without_posts_array
    [of 200 "\<lparr>posts_field = None, has_more_field = None\<rparr>" "''t''"
        "initial_state\<lparr>posts := [sample_post 7 False False], offset := 1\<rparr>"]
  by (simp add: response_ok_def)

text \<open>
  C1. A refresh whose request is rejected while a post is held: the held post is
  replaced by the placeholder posts, since \<^verbatim>\<open>catch\<close> tests \<^verbatim>\<open>reset\<close> only.
\<close>

theorem C1_refresh_failure_replaces_held_posts:
  "posts (run [Mount ''t0'' (ok_page [sample_post 42 False False])] initial_state)
     = [sample_post 42 False False]
   \<and> posts (run [Mount ''t0'' (ok_page [sample_post 42 False False]),
                 Refresh ''t1'' FetchRejected] initial_state)
     = placeholder_posts ''t1''
   \<and> placeholder_posts ''t1'' \<noteq> [sample_post 42 False False]"
  by (simp add: handleRefresh_def posts_loadPosts ok_page_def response_ok_def
      placeholder_posts_def)

text \<open>
  C3, as the claim has it, fails: a first load whose response is ok and has no posts
  array completes with an empty held sequence.
\<close>

theorem C3_counterexample:
  "posts (run [Mount ''t0''
        (FetchResponse 200 (Some \<lparr>posts_field = None, has_more_field = None\<rparr>))]
      initial_state) = []"
  by (simp add: posts_loadPosts response_ok_def initial_state_def)

text \<open>
  C3, amended. When the first load throws (the request is rejected, the status is not
  2xx, or the body cannot be read), the held posts become the five placeholder posts,
  all with both feedback flags false, \<open>hasMore\<close> becomes false and the error is set, so
  the held sequence is not empty. A first load that does not throw leaves the held
  sequence empty exactly when the body has no posts array or an empty one.
\<close>

theorem C3_first_load_failure:
  "(fetch_throws outcome \<longrightarrow>
      posts (step (Mount now outcome) initial_state) = placeholder_posts now
    \<and> length (posts (step (Mount now outcome) initial_state)) = 5
    \<and> (\<forall>p \<in> set (posts (step (Mount now outcome) initial_state)).
         \<not> like_status p \<and> \<not> dislike_status p)
    \<and> \<not> hasMore (step (Mount now outcome) initial_state)
    \<and> error (step (Mount now outcome) initial_state) = Some ''Failed to load posts from API''
    \<and> \<not> loading (step (Mount now outcome) initial_state))
   \<and> (posts (step (Mount now outcome) initial_state) = [] \<longleftrightarrow>
        \<not> fetch_throws outcome \<and> returned_page outcome \<in> {None, Some []})"
proof -
  have a: "fetch_throws outcome \<Longrightarrow> returned_page outcome = None"
    by (cases outcome) auto
  have b: "placeholder_posts now \<noteq> []"
    using placeholder_length [of now] by auto
  show ?thesis
    using placeholder_flags [of _ now]
    by (auto simp: posts_loadPosts hasMore_loadPosts_throws error_loadPosts_throws
        flags_loadPosts placeholder_length a b initial_state_def split: option.splits)
qed

theorem C3_witness:
  "fetch_throws FetchRejected
   \<and> posts (step (Mount ''t0'' FetchRejected) initial_state) = placeholder_posts ''t0''
   \<and> \<not> hasMore (step (Mount ''t0'' FetchRejected) initial_state)
   \<and> error (step (Mount ''t0'' FetchRejected) initial_state)
       = Some ''Failed to load posts from API''"
  using C3_first_load_failure [of FetchRejected "''t0''"] by simp

text \<open>
  C5. A successful load sets \<open>hasMore\<close> to the \<^verbatim>\<open>has_more\<close> field of the body when
  the field is present, and to \<open>length page = LIMIT\<close> otherwise. Without the field, a
  page shorter than the limit gives \<open>hasMore = False\<close>, and \<^verbatim>\<open>handleLoadMore\<close> then
  issues no request and leaves the state as it is.
\<close>

theorem C5_hasMore_after_success:
  assumes "response_ok status" and "posts_field data = Some page"
  shows "hasMore (loadPosts reset now (FetchResponse status (Some data)) st)
           = (case has_more_field data of Some b \<Rightarrow> b | None \<Rightarrow> length page = LIMIT)
       \<and> LIMIT = 20
       \<and> (has_more_field data = None \<and> length page < LIMIT \<longrightarrow>
            \<not> hasMore (loadPosts reset now (FetchResponse status (Some data)) st)
          \<and> handleLoadMore_request (loadPosts reset now (FetchResponse status (Some data)) st)
              = None
          \<and> handleLoadMore now' outcome'
               (loadPosts reset now (FetchResponse status (Some data)) st)
              = loadPosts reset now (FetchResponse status (Some data)) st)"
proof -
  let ?st' = "loadPosts reset now (FetchResponse status (Some data)) st"
  have h: "hasMore ?st' = (case has_more_field data of Some b \<Rightarrow> b | None \<Rightarrow> length page = LIMIT)"
    using assms by (simp add: loadPosts_defs Let_def split: option.splits)
  have "\<not> hasMore ?st'" if "has_more_field data = None \<and> length page < LIMIT"
    using h that by simp
  then show ?thesis
    using h by (simp add: handleLoadMore_request_def handleLoadMore_def LIMIT_def)
qed

theorem C5_witness:
  "response_ok 200
   \<and> \<not> hasMore (loadPosts True ''t0''
         (ok_page (map (\<lambda>i. sample_post i False False) [1, 2, 3, 4, 5])) initial_state)
   \<and> handleLoadMore_request (loadPosts True ''t0''
         (ok_page (map (\<lambda>i. sample_post i False False) [1, 2, 3, 4, 5])) initial_state) = None"
  using C5_hasMore_after_success
    [of 200 "\<lparr>posts_field = Some (map (\<lambda>i. sample_post i False False) [1, 2, 3, 4, 5]),
              has_more_field = None\<rparr>"
        "map (\<lambda>i. sample_post i False False) [1, 2, 3, 4, 5]" True "''t0''" initial_state]
  by (simp add: response_ok_def ok_page_def LIMIT_def)

text \<open>
  C9. Without a configured key (none stored, the store throws, or the empty string)
  \<^verbatim>\<open>makeRequest\<close> throws \<open>MissingCredential\<close> and makes no call. With a key, status
  401 gives \<open>InvalidCredential\<close>, and every other status outside 200 to 299 gives
  \<open>HttpError\<close> with that status, which is a different error.
\<close>

theorem C9_makeRequest_errors:
  "(getApiKey store = None \<or> getApiKey store = Some [] \<longrightarrow>
      makeRequest store net endpoint = ([], Inl MissingCredential))
   \<and> (getApiKey store = Some k \<and> k \<noteq> []
        \<and> net \<lparr>call_endpoint = endpoint, call_api_key = k\<rparr> = Some 401 \<longrightarrow>
      snd (makeRequest store net endpoint) = Inl InvalidCredential)
   \<and> (getApiKey store = Some k \<and> k \<noteq> []
        \<and> net \<lparr>call_endpoint = endpoint, call_api_key = k\<rparr> = Some status
        \<and> status \<noteq> 401 \<and> \<not> response_ok status \<longrightarrow>
      snd (makeRequest store net endpoint) = Inl (HttpError status))
   \<and> InvalidCredential \<noteq> HttpError status"
  by (auto simp: makeRequest_def Let_def)

theorem C9_witness:
  "makeRequest (StoreValue None) (\<lambda>c. Some 200) ''/api/v1/mobile/stats''
     = ([], Inl MissingCredential)
   \<and> snd (makeRequest (StoreValue (Some ''key'')) (\<lambda>c. Some 401) ''/api/v1/mobile/stats'')
       = Inl InvalidCredential
   \<and> snd (makeRequest (StoreValue (Some ''key'')) (\<lambda>c. Some 500) ''/api/v1/mobile/stats'')
       = Inl (HttpError 500)"
  using C9_makeRequest_errors
      [of "StoreValue None" "\<lambda>c. Some 200" "''/api/v1/mobile/stats''" "''key''" 500]
    C9_makeRequest_errors
      [of "StoreValue (Some ''key'')" "\<lambda>c. Some 401" "''/api/v1/mobile/stats''" "''key''" 500]
    C9_makeRequest_errors
      [of "StoreValue (Some ''key'')" "\<lambda>c. Some 500" "''/api/v1/mobile/stats''" "''key''" 500]
  by (simp add: getApiKey_def response_ok_def)

subsection \<open>Feedback\<close>

lemma findIndex_Some:
  "findIndex ps pid = Some i \<Longrightarrow> i < length ps \<and> post_id (ps ! i) = pid"
proof (induction ps arbitrary: i)
  case Nil
  then show ?case by simp
next
  case (Cons p ps)
  then show ?case
    by (auto split: if_splits option.splits)
qed

lemma findIndex_None: "findIndex ps pid = None \<longleftrightarrow> pid \<notin> post_id ` set ps"
  by (induction ps) (auto split: option.splits)

lemma like_revert_optimistic:
  "like_revert pid (like_optimistic pid b ps) =
     map (\<lambda>p. if post_id p = pid then p\<lparr>like_status := \<not> b, dislike_status := False\<rparr> else p) ps"
  by (simp add: like_revert_def like_optimistic_def)

lemma dislike_revert_optimistic:
  "dislike_revert pid (dislike_optimistic pid b ps) =
     map (\<lambda>p. if post_id p = pid then p\<lparr>dislike_status := \<not> b, like_status := False\<rparr> else p) ps"
  by (simp add: dislike_revert_def dislike_optimistic_def)

lemma posts_handleLike:
  "posts (handleLike pid outcome st) =
     (case findIndex (posts st) pid of
        None \<Rightarrow> posts st
      | Some i \<Rightarrow>
          (if put_failed outcome
           then like_revert pid (like_optimistic pid (\<not> like_status (posts st ! i)) (posts st))
           else like_optimistic pid (\<not> like_status (posts st ! i)) (posts st)))"
  by (simp add: handleLike_def Let_def split: option.splits)

lemma posts_handleDislike:
  "posts (handleDislike pid outcome st) =
     (case findIndex (posts st) pid of
        None \<Rightarrow> posts st
      | Some i \<Rightarrow>
          (if put_failed outcome
           then dislike_revert pid
                  (dislike_optimistic pid (\<not> dislike_status (posts st ! i)) (posts st))
           else dislike_optimistic pid (\<not> dislike_status (posts st ! i)) (posts st)))"
  by (simp add: handleDislike_def Let_def split: option.splits)

text \<open>
  C4. Let the post tapped be at index \<open>i\<close> (the first with the identity) and let the
  \<^verbatim>\<open>PUT\<close> fail. After \<^verbatim>\<open>handleLike\<close> the post is as before the tap except that
  its dislike flag is false: the optimistic update had set the like flag to its
  negation and the dislike flag to false, and the rollback restores the like flag only.
  Posts of another identity are untouched. \<^verbatim>\<open>handleDislike\<close> is the mirror image.
\<close>

theorem C4_failed_feedback_rollback:
  assumes "findIndex (posts st) pid = Some i" and "put_failed outcome"
  shows "like_optimistic pid (\<not> like_status (posts st ! i)) (posts st) ! i
           = (posts st ! i)\<lparr>like_status := \<not> like_status (posts st ! i), dislike_status := False\<rparr>
       \<and> posts (handleLike pid outcome st) ! i = (posts st ! i)\<lparr>dislike_status := False\<rparr>
       \<and> dislike_optimistic pid (\<not> dislike_status (posts st ! i)) (posts st) ! i
           = (posts st ! i)\<lparr>dislike_status := \<not> dislike_status (posts st ! i), like_status := False\<rparr>
       \<and> posts (handleDislike pid outcome st) ! i = (posts st ! i)\<lparr>like_status := False\<rparr>
       \<and> length (posts (handleLike pid outcome st)) = length (posts st)
       \<and> length (posts (handleDislike pid outcome st)) = length (posts st)
       \<and> (\<forall>j < length (posts st). post_id (posts st ! j) \<noteq> pid \<longrightarrow>
            posts (handleLike pid outcome st) ! j = posts st ! j
          \<and> posts (handleDislike pid outcome st) ! j = posts st ! j)"
proof -
  from assms(1) have i: "i < length (posts st)" and p: "post_id (posts st ! i) = pid"
    using findIndex_Some by blast+
  have L: "posts (handleLike pid outcome st) =
      map (\<lambda>p. if post_id p = pid
                then p\<lparr>like_status := like_status (posts st ! i), dislike_status := False\<rparr>
                else p) (posts st)"
    using assms by (simp add: posts_handleLike like_revert_optimistic)
  have D: "posts (handleDislike pid outcome st) =
      map (\<lambda>p. if post_id p = pid
                then p\<lparr>dislike_status := dislike_status (posts st ! i), like_status := False\<rparr>
                else p) (posts st)"
    using assms by (simp add: posts_handleDislike dislike_revert_optimistic)
  have 1: "like_optimistic pid (\<not> like_status (posts st ! i)) (posts st) ! i
      = (posts st ! i)\<lparr>like_status := \<not> like_status (posts st ! i), dislike_status := False\<rparr>"
    using i p by (simp add: like_optimistic_def)
  have 2: "dislike_optimistic pid (\<not> dislike_status (posts st ! i)) (posts st) ! i
      = (posts st ! i)\<lparr>dislike_status := \<not> dislike_status (posts st ! i), like_status := False\<rparr>"
    using i p by (simp add: dislike_optimistic_def)
  have 3: "posts (handleLike pid outcome st) ! i = (posts st ! i)\<lparr>dislike_status := False\<rparr>"
    using i p by (simp add: L)
  have 4: "posts (handleDislike pid outcome st) ! i = (posts st ! i)\<lparr>like_status := False\<rparr>"
    using i p by (simp add: D)
  have 5: "\<forall>j < length (posts st). post_id (posts st ! j) \<noteq> pid \<longrightarrow>
            posts (handleLike pid outcome st) ! j = posts st ! j
          \<and> posts (handleDislike pid outcome st) ! j = posts st ! j"
    by (simp add: L D)
  have 6: "length (posts (handleLike pid outcome st)) = length (posts st)"
    by (simp add: L)
  have 7: "length (posts (handleDislike pid outcome st)) = length (posts st)"
    by (simp add: D)
  from 1 2 3 4 5 6 7 show ?thesis by blast
qed

theorem C4_witness:
  "findIndex (posts (initial_state\<lparr>posts := [sample_post 42 False True]\<rparr>)) 42 = Some 0
   \<and> put_failed PutRejected
   \<and> like_optimistic 42 True [sample_post 42 False True] = [sample_post 42 True False]
   \<and> posts (handleLike 42 PutRejected (initial_state\<lparr>posts := [sample_post 42 False True]\<rparr>))
       = [sample_post 42 False False]"
proof -
  have f: "findIndex (posts (initial_state\<lparr>posts := [sample_post 42 False True]\<rparr>)) 42 = Some 0"
    by (simp add: sample_post_def)
  have r: "put_failed PutRejected"
    by (simp add: put_failed_def)
  have o: "like_optimistic 42 True [sample_post 42 False True] = [sample_post 42 True False]"
    by (simp add: like_optimistic_def sample_post_def)
  have l: "length (posts (handleLike 42 PutRejected
              (initial_state\<lparr>posts := [sample_post 42 False True]\<rparr>))) = 1"
    using C4_failed_feedback_rollback [OF f r] by simp
  have "posts (handleLike 42 PutRejected (initial_state\<lparr>posts := [sample_post 42 False True]\<rparr>)) ! 0
          = sample_post 42 False False"
    using C4_failed_feedback_rollback [OF f r] by (simp add: sample_post_def)
  with l have "posts (handleLike 42 PutRejected
                 (initial_state\<lparr>posts := [sample_post 42 False True]\<rparr>))
               = [sample_post 42 False False]"
    by (cases "posts (handleLike 42 PutRejected
                 (initial_state\<lparr>posts := [sample_post 42 False True]\<rparr>))") auto
  with f r o show ?thesis by simp
qed

lemma exclusive_like_optimistic:
  "list_all exclusive ps \<Longrightarrow> list_all exclusive (like_optimistic pid b ps)"
  by (induction ps) (auto simp: like_optimistic_def exclusive_def)

lemma exclusive_dislike_optimistic:
  "list_all exclusive ps \<Longrightarrow> list_all exclusive (dislike_optimistic pid b ps)"
  by (induction ps) (auto simp: dislike_optimistic_def exclusive_def)

lemma exclusive_like_rollback:
  "list_all exclusive ps \<Longrightarrow> list_all exclusive (like_revert pid (like_optimistic pid b ps))"
  unfolding like_revert_optimistic
  by (induction ps) (auto simp: exclusive_def)

lemma exclusive_dislike_rollback:
  "list_all exclusive ps \<Longrightarrow>
     list_all exclusive (dislike_revert pid (dislike_optimistic pid b ps))"
  unfolding dislike_revert_optimistic
  by (induction ps) (auto simp: exclusive_def)

lemma exclusive_feedback_step:
  "list_all exclusive (posts st) \<Longrightarrow> is_feedback e \<Longrightarrow> list_all exclusive (posts (step e st))"
  by (cases e)
    (auto simp: posts_handleLike posts_handleDislike exclusive_like_optimistic
      exclusive_dislike_optimistic exclusive_like_rollback exclusive_dislike_rollback
      split: option.splits)

lemma exclusive_feedback_run:
  "list_all exclusive (posts st) \<Longrightarrow> list_all is_feedback es \<Longrightarrow>
     list_all exclusive (posts (run es st))"
proof (induction es arbitrary: st)
  case Nil
  then show ?case by simp
next
  case (Cons e es)
  from Cons.prems have "list_all exclusive (posts (step e st))"
    by (simp add: exclusive_feedback_step)
  with Cons show ?case by simp
qed

lemma optimistic_like_clears_dislike:
  "\<forall>p \<in> set (like_optimistic pid b ps). post_id p = pid \<longrightarrow> \<not> dislike_status p"
proof
  fix p
  assume "p \<in> set (like_optimistic pid b ps)"
  then obtain q where q: "q \<in> set ps" and
    p: "p = (if post_id q = pid then q\<lparr>like_status := b, dislike_status := False\<rparr> else q)"
    unfolding like_optimistic_def by auto
  show "post_id p = pid \<longrightarrow> \<not> dislike_status p"
  proof (cases "post_id q = pid")
    case True
    with p show ?thesis by simp
  next
    case False
    with p show ?thesis by simp
  qed
qed

lemma optimistic_dislike_clears_like:
  "\<forall>p \<in> set (dislike_optimistic pid b ps). post_id p = pid \<longrightarrow> \<not> like_status p"
proof
  fix p
  assume "p \<in> set (dislike_optimistic pid b ps)"
  then obtain q where q: "q \<in> set ps" and
    p: "p = (if post_id q = pid then q\<lparr>dislike_status := b, like_status := False\<rparr> else q)"
    unfolding dislike_optimistic_def by auto
  show "post_id p = pid \<longrightarrow> \<not> like_status p"
  proof (cases "post_id q = pid")
    case True
    with p show ?thesis by simp
  next
    case False
    with p show ?thesis by simp
  qed
qed

text \<open>
  C8. From a held sequence in which no post has both flags true, every sequence of
  like and dislike taps, each run to completion with any result of its \<^verbatim>\<open>PUT\<close>,
  ends in such a sequence. The optimistic update sets the opposite flag of the tapped
  post to false, so the state between the update and the response has the property
  too, and so has the state after the rollback.
\<close>

theorem C8_feedback_flags_exclusive:
  "(list_all exclusive (posts st) \<and> list_all is_feedback es \<longrightarrow>
      list_all exclusive (posts (run es st)))
   \<and> (\<forall>p \<in> set (like_optimistic pid b ps). post_id p = pid \<longrightarrow> \<not> dislike_status p)
   \<and> (\<forall>p \<in> set (dislike_optimistic pid b ps). post_id p = pid \<longrightarrow> \<not> like_status p)
   \<and> (list_all exclusive ps \<longrightarrow>
        list_all exclusive (like_optimistic pid b ps)
      \<and> list_all exclusive (like_revert pid (like_optimistic pid b ps))
      \<and> list_all exclusive (dislike_optimistic pid b ps)
      \<and> list_all exclusive (dislike_revert pid (dislike_optimistic pid b ps)))"
proof -
  have a: "list_all exclusive (posts st) \<and> list_all is_feedback es \<longrightarrow>
      list_all exclusive (posts (run es st))"
    using exclusive_feedback_run by blast
  have b: "\<forall>p \<in> set (like_optimistic pid b ps). post_id p = pid \<longrightarrow> \<not> dislike_status p"
    by (rule optimistic_like_clears_dislike)
  have c: "\<forall>p \<in> set (dislike_optimistic pid b ps). post_id p = pid \<longrightarrow> \<not> like_status p"
    by (rule optimistic_dislike_clears_like)
  have d: "list_all exclusive ps \<longrightarrow>
        list_all exclusive (like_optimistic pid b ps)
      \<and> list_all exclusive (like_revert pid (like_optimistic pid b ps))
      \<and> list_all exclusive (dislike_optimistic pid b ps)
      \<and> list_all exclusive (dislike_revert pid (dislike_optimistic pid b ps))"
    using exclusive_like_optimistic exclusive_dislike_optimistic
      exclusive_like_rollback exclusive_dislike_rollback by blast
  show ?thesis
    by (rule conjI [OF a conjI [OF b conjI [OF c d]]])
qed

theorem C8_witness:
  "list_all exclusive (posts (initial_state\<lparr>posts := [sample_post 42 False True]\<rparr>))
   \<and> list_all is_feedback [TapLike 42 PutRejected, TapDislike 42 (PutResponse 200)]
   \<and> list_all exclusive
       (posts (run [TapLike 42 PutRejected, TapDislike 42 (PutResponse 200)]
                 (initial_state\<lparr>posts := [sample_post 42 False True]\<rparr>)))
   \<and> list_all exclusive (like_revert 42 (like_optimistic 42 True [sample_post 42 False True]))"
proof -
  have h1: "list_all exclusive (posts (initial_state\<lparr>posts := [sample_post 42 False True]\<rparr>))"
    by (simp add: exclusive_def sample_post_def)
  have h2: "list_all is_feedback [TapLike 42 PutRejected, TapDislike 42 (PutResponse 200)]"
    by simp
  have h3: "list_all exclusive [sample_post 42 False True]"
    by (simp add: exclusive_def sample_post_def)
  note t = C8_feedback_flags_exclusive
    [of "initial_state\<lparr>posts := [sample_post 42 False True]\<rparr>"
        "[TapLike 42 PutRejected, TapDislike 42 (PutResponse 200)]"
        42 True "[sample_post 42 False True]"]
  from t h1 h2 have c1: "list_all exclusive
       (posts (run [TapLike 42 PutRejected, TapDislike 42 (PutResponse 200)]
                 (initial_state\<lparr>posts := [sample_post 42 False True]\<rparr>)))"
    by blast
  from t h3 have c3:
    "list_all exclusive (like_revert 42 (like_optimistic 42 True [sample_post 42 False True]))"
    by blast
  show ?thesis
    by (rule conjI [OF h1 conjI [OF h2 conjI [OF c1 c3]]])
qed

subsection \<open>Pagination\<close>

lemma offset_load_more_all:
  "offset (load_more_all rs st) = offset st + sum_list (map (\<lambda>r. length (page_of (snd r))) rs)"
  by (induction rs arbitrary: st)
    (simp_all add: offset_loadPosts page_of_def split: option.splits)

lemma posts_load_more_all:
  "posts (load_more_all rs st) = posts st @ concat (map (\<lambda>r. page_of (snd r)) rs)"
  by (induction rs arbitrary: st)
    (simp_all add: posts_loadPosts page_of_def split: option.splits)

text \<open>
  C6. After a successful reset load the offset is the length of the returned page,
  which is the number of posts held. A successful append adds the length of its page
  to the offset. So \<open>N\<close> successful appends add the sum of their page lengths: from
  an offset of 0 the offset is that sum, and after a successful reset load followed by
  successful appends it is the sum of the lengths of all pages returned, the reset's
  included, and still the number of posts held.
\<close>

theorem C6_offset_counts_returned_posts:
  "(returned_page outcome = Some page \<longrightarrow>
      offset (loadPosts True now outcome st) = length page
    \<and> offset (loadPosts True now outcome st) = length (posts (loadPosts True now outcome st))
    \<and> offset (loadPosts False now outcome st) = offset st + length page)
   \<and> (list_all succeeded rs \<longrightarrow>
        offset (load_more_all rs st)
          = offset st + sum_list (map (\<lambda>r. length (page_of (snd r))) rs))
   \<and> (list_all succeeded rs \<and> offset st = 0 \<longrightarrow>
        offset (load_more_all rs st) = sum_list (map (\<lambda>r. length (page_of (snd r))) rs))
   \<and> (returned_page outcome = Some page \<and> list_all succeeded rs \<longrightarrow>
        offset (load_more_all rs (loadPosts True now outcome st))
          = sum_list (map (\<lambda>r. length (page_of (snd r))) ((now, outcome) # rs))
      \<and> offset (load_more_all rs (loadPosts True now outcome st))
          = length (posts (load_more_all rs (loadPosts True now outcome st))))"
proof -
  have a: "returned_page outcome = Some page \<longrightarrow>
      offset (loadPosts True now outcome st) = length page
    \<and> offset (loadPosts True now outcome st) = length (posts (loadPosts True now outcome st))
    \<and> offset (loadPosts False now outcome st) = offset st + length page"
    by (simp add: offset_loadPosts posts_loadPosts)
  have b: "list_all succeeded rs \<longrightarrow>
        offset (load_more_all rs st)
          = offset st + sum_list (map (\<lambda>r. length (page_of (snd r))) rs)"
    by (simp add: offset_load_more_all)
  have c: "list_all succeeded rs \<and> offset st = 0 \<longrightarrow>
        offset (load_more_all rs st) = sum_list (map (\<lambda>r. length (page_of (snd r))) rs)"
    by (simp add: offset_load_more_all)
  have d: "returned_page outcome = Some page \<and> list_all succeeded rs \<longrightarrow>
        offset (load_more_all rs (loadPosts True now outcome st))
          = sum_list (map (\<lambda>r. length (page_of (snd r))) ((now, outcome) # rs))
      \<and> offset (load_more_all rs (loadPosts True now outcome st))
          = length (posts (load_more_all rs (loadPosts True now outcome st)))"
    by (simp add: offset_load_more_all posts_load_more_all offset_loadPosts posts_loadPosts
        page_of_def length_concat comp_def)
  show ?thesis
    by (rule conjI [OF a conjI [OF b conjI [OF c d]]])
qed

theorem C6_witness:
  "returned_page (ok_page (sample_page 20))
     = Some (sample_page 20)
   \<and> list_all succeeded [(''t1'', ok_page [sample_post 30 False False, sample_post 31 False False]),
                          (''t2'', ok_page [sample_post 32 False False])]
   \<and> offset (load_more_all
               [(''t1'', ok_page [sample_post 30 False False, sample_post 31 False False]),
                (''t2'', ok_page [sample_post 32 False False])]
               (loadPosts True ''t0''
                  (ok_page (sample_page 20)) initial_state))
       = 23
   \<and> offset (load_more_all
               [(''t1'', ok_page [sample_post 30 False False, sample_post 31 False False]),
                (''t2'', ok_page [sample_post 32 False False])]
               (initial_state\<lparr>loading := False\<rparr>))
       = 3"
proof -
  have h1: "returned_page (ok_page (sample_page 20))
     = Some (sample_page 20)"
    by (simp add: ok_page_def response_ok_def)
  have h2: "list_all succeeded
      [(''t1'', ok_page [sample_post 30 False False, sample_post 31 False False]),
       (''t2'', ok_page [sample_post 32 False False])]"
    by (simp add: succeeded_def ok_page_def response_ok_def)
  have h3: "offset (initial_state\<lparr>loading := False\<rparr>) = 0"
    by (simp add: initial_state_def)
  have c1: "offset (load_more_all
               [(''t1'', ok_page [sample_post 30 False False, sample_post 31 False False]),
                (''t2'', ok_page [sample_post 32 False False])]
               (loadPosts True ''t0''
                  (ok_page (sample_page 20)) initial_state))
       = 23"
    using C6_offset_counts_returned_posts
      [of "ok_page (sample_page 20)"
          "sample_page 20" "''t0''" initial_state
          "[(''t1'', ok_page [sample_post 30 False False, sample_post 31 False False]),
            (''t2'', ok_page [sample_post 32 False False])]"] h1 h2
    by (simp add: page_of_def ok_page_def response_ok_def sample_page_def)
  have c2: "offset (load_more_all
               [(''t1'', ok_page [sample_post 30 False False, sample_post 31 False False]),
                (''t2'', ok_page [sample_post 32 False False])]
               (initial_state\<lparr>loading := False\<rparr>))
       = 3"
    using C6_offset_counts_returned_posts
      [of FetchRejected "[]" "''t0''" "initial_state\<lparr>loading := False\<rparr>"
          "[(''t1'', ok_page [sample_post 30 False False, sample_post 31 False False]),
            (''t2'', ok_page [sample_post 32 False False])]"] h2 h3
    by (simp add: page_of_def ok_page_def response_ok_def)
  show ?thesis
    by (rule conjI [OF h1 conjI [OF h2 conjI [OF c1 c2]]])
qed

lemma strip_like_optimistic:
  "map strip_feedback (like_optimistic pid b ps) = map strip_feedback ps"
  by (induction ps) (simp_all add: like_optimistic_def strip_feedback_def)

lemma strip_like_revert: "map strip_feedback (like_revert pid ps) = map strip_feedback ps"
  by (induction ps) (simp_all add: like_revert_def strip_feedback_def)

lemma strip_dislike_optimistic:
  "map strip_feedback (dislike_optimistic pid b ps) = map strip_feedback ps"
  by (induction ps) (simp_all add: dislike_optimistic_def strip_feedback_def)

lemma strip_dislike_revert:
  "map strip_feedback (dislike_revert pid ps) = map strip_feedback ps"
  by (induction ps) (simp_all add: dislike_revert_def strip_feedback_def)

lemma strip_handleLike:
  "map strip_feedback (posts (handleLike pid outcome st)) = map strip_feedback (posts st)"
  by (simp add: posts_handleLike strip_like_optimistic strip_like_revert split: option.splits)

lemma strip_handleDislike:
  "map strip_feedback (posts (handleDislike pid outcome st)) = map strip_feedback (posts st)"
  by (simp add: posts_handleDislike strip_dislike_optimistic strip_dislike_revert
      split: option.splits)

lemma posts_handleLoadMore:
  "\<exists>page. posts (handleLoadMore now outcome st) = posts st @ page"
  by (simp add: handleLoadMore_def posts_loadPosts split: option.splits)

lemma prefix_kept:
  "\<not> is_reset e \<Longrightarrow>
     take (length (posts st)) (map strip_feedback (posts (step e st)))
       = map strip_feedback (posts st)"
proof (cases e)
  case (EndReached now outcome)
  obtain page where "posts (handleLoadMore now outcome st) = posts st @ page"
    using posts_handleLoadMore by blast
  with EndReached show ?thesis by simp
next
  case (TapLike pid outcome)
  then show ?thesis by (simp add: strip_handleLike)
next
  case (TapDislike pid outcome)
  then show ?thesis by (simp add: strip_handleDislike)
qed simp_all

text \<open>
  C7. After a successful reset load followed by successful appends the held posts are
  the returned pages concatenated in request order. An append (successful or not)
  keeps the held posts as a prefix of the new sequence, and every operation other than
  a reset load keeps them in place and in order, feedback flags aside. A successful
  refresh replaces the whole sequence by the returned page.
\<close>

theorem C7_held_posts_are_concatenated_pages:
  "(returned_page outcome = Some page \<and> list_all succeeded rs \<longrightarrow>
      posts (load_more_all rs (loadPosts True now outcome st))
        = page @ concat (map (\<lambda>r. page_of (snd r)) rs))
   \<and> take (length (posts st)) (posts (load_more_all rs st)) = posts st
   \<and> (\<not> is_reset e \<longrightarrow>
        take (length (posts st)) (map strip_feedback (posts (step e st)))
          = map strip_feedback (posts st))
   \<and> (returned_page outcome = Some page \<longrightarrow>
        posts (handleRefresh now outcome st) = page)"
proof -
  have a: "returned_page outcome = Some page \<and> list_all succeeded rs \<longrightarrow>
      posts (load_more_all rs (loadPosts True now outcome st))
        = page @ concat (map (\<lambda>r. page_of (snd r)) rs)"
    by (simp add: posts_load_more_all posts_loadPosts)
  have b: "take (length (posts st)) (posts (load_more_all rs st)) = posts st"
    by (simp add: posts_load_more_all)
  have c: "\<not> is_reset e \<longrightarrow>
        take (length (posts st)) (map strip_feedback (posts (step e st)))
          = map strip_feedback (posts st)"
    using prefix_kept by blast
  have d: "returned_page outcome = Some page \<longrightarrow>
        posts (handleRefresh now outcome st) = page"
    by (simp add: handleRefresh_def posts_loadPosts)
  show ?thesis
    by (rule conjI [OF a conjI [OF b conjI [OF c d]]])
qed

theorem C7_witness:
  "returned_page (ok_page_more [sample_post 1 False False, sample_post 2 False False] True)
     = Some [sample_post 1 False False, sample_post 2 False False]
   \<and> list_all succeeded [(''t1'', ok_page [sample_post 3 False False]),
                          (''t2'', ok_page [sample_post 4 False False])]
   \<and> \<not> is_reset (TapLike 1 PutRejected)
   \<and> posts (load_more_all [(''t1'', ok_page [sample_post 3 False False]),
                            (''t2'', ok_page [sample_post 4 False False])]
        (loadPosts True ''t0''
           (ok_page_more [sample_post 1 False False, sample_post 2 False False] True)
           initial_state))
       = [sample_post 1 False False, sample_post 2 False False,
          sample_post 3 False False, sample_post 4 False False]
   \<and> posts (handleRefresh ''t0''
        (ok_page_more [sample_post 1 False False, sample_post 2 False False] True)
        (initial_state\<lparr>posts := [sample_post 9 True False]\<rparr>))
       = [sample_post 1 False False, sample_post 2 False False]"
proof -
  have h1: "returned_page
      (ok_page_more [sample_post 1 False False, sample_post 2 False False] True)
     = Some [sample_post 1 False False, sample_post 2 False False]"
    by (simp add: ok_page_more_def response_ok_def)
  have h2: "list_all succeeded [(''t1'', ok_page [sample_post 3 False False]),
                                (''t2'', ok_page [sample_post 4 False False])]"
    by (simp add: succeeded_def ok_page_def response_ok_def)
  have h3: "\<not> is_reset (TapLike 1 PutRejected)"
    by simp
  have c1: "posts (load_more_all [(''t1'', ok_page [sample_post 3 False False]),
                            (''t2'', ok_page [sample_post 4 False False])]
        (loadPosts True ''t0''
           (ok_page_more [sample_post 1 False False, sample_post 2 False False] True)
           initial_state))
       = [sample_post 1 False False, sample_post 2 False False,
          sample_post 3 False False, sample_post 4 False False]"
    using C7_held_posts_are_concatenated_pages
      [of "ok_page_more [sample_post 1 False False, sample_post 2 False False] True"
          "[sample_post 1 False False, sample_post 2 False False]"
          "[(''t1'', ok_page [sample_post 3 False False]),
            (''t2'', ok_page [sample_post 4 False False])]"
          "''t0''" initial_state "TapLike 1 PutRejected"] h1 h2
    by (simp add: page_of_def ok_page_def response_ok_def)
  have c2: "posts (handleRefresh ''t0''
        (ok_page_more [sample_post 1 False False, sample_post 2 False False] True)
        (initial_state\<lparr>posts := [sample_post 9 True False]\<rparr>))
       = [sample_post 1 False False, sample_post 2 False False]"
    using C7_held_posts_are_concatenated_pages
      [of "ok_page_more [sample_post 1 False False, sample_post 2 False False] True"
          "[sample_post 1 False False, sample_post 2 False False]"
          "[]" "''t0''" "initial_state\<lparr>posts := [sample_post 9 True False]\<rparr>"
          "TapLike 1 PutRejected"] h1
    by simp
  show ?thesis
    by (rule conjI [OF h1 conjI [OF h2 conjI [OF h3 conjI [OF c1 c2]]]])
qed

subsection \<open>Identities of the held posts\<close>

lemma ids_like_optimistic: "map post_id (like_optimistic pid b ps) = map post_id ps"
  by (induction ps) (simp_all add: like_optimistic_def)

lemma ids_like_revert: "map post_id (like_revert pid ps) = map post_id ps"
  by (induction ps) (simp_all add: like_revert_def)

lemma ids_dislike_optimistic: "map post_id (dislike_optimistic pid b ps) = map post_id ps"
  by (induction ps) (simp_all add: dislike_optimistic_def)

lemma ids_dislike_revert: "map post_id (dislike_revert pid ps) = map post_id ps"
  by (induction ps) (simp_all add: dislike_revert_def)

lemma ids_handleLike: "map post_id (posts (handleLike pid outcome st)) = map post_id (posts st)"
  by (simp add: posts_handleLike ids_like_optimistic ids_like_revert split: option.splits)

lemma ids_handleDislike:
  "map post_id (posts (handleDislike pid outcome st)) = map post_id (posts st)"
  by (simp add: posts_handleDislike ids_dislike_optimistic ids_dislike_revert
      split: option.splits)

lemma distinct_reset_load:
  assumes "distinct (map post_id (posts st))" and "distinct (map post_id (page_of outcome))"
  shows "distinct (map post_id (posts (loadPosts True now outcome st)))"
proof (cases "returned_page outcome")
  case None
  then show ?thesis
    using assms(1) by (simp add: posts_loadPosts placeholder_ids)
next
  case (Some page)
  then show ?thesis
    using assms(2) by (simp add: posts_loadPosts page_of_def)
qed

lemma distinct_append_load:
  assumes "distinct (map post_id (posts st))" and "distinct (map post_id (page_of outcome))"
    and "set (map post_id (page_of outcome)) \<inter> set (map post_id (posts st)) = {}"
  shows "distinct (map post_id (posts (loadPosts False now outcome st)))"
proof (cases "returned_page outcome")
  case None
  then show ?thesis
    using assms(1) by (simp add: posts_loadPosts)
next
  case (Some page)
  with assms(2,3) have "distinct (map post_id page)"
    and "set (map post_id (posts st)) \<inter> set (map post_id page) = {}"
    by (auto simp: page_of_def)
  with Some assms(1) show ?thesis
    by (simp add: posts_loadPosts)
qed

lemma distinct_step:
  assumes "distinct (map post_id (posts st))" and "fresh_page e st"
  shows "distinct (map post_id (posts (step e st)))"
proof (cases e)
  case (Mount now outcome)
  with assms show ?thesis by (simp add: distinct_reset_load)
next
  case (Refresh now outcome)
  with assms show ?thesis by (simp add: handleRefresh_def distinct_reset_load)
next
  case (EndReached now outcome)
  with assms show ?thesis by (simp add: handleLoadMore_def distinct_append_load)
next
  case (TapLike pid outcome)
  with assms show ?thesis by (simp add: ids_handleLike)
next
  case (TapDislike pid outcome)
  with assms show ?thesis by (simp add: ids_handleDislike)
qed

text \<open>
  C2, as the claim has it, fails: the screen does not deduplicate. When the first page
  is one post and the next page returns the same post again, the post is held twice.
\<close>

theorem C2_counterexample:
  "\<not> distinct (map post_id (posts (run
       [Mount ''t0'' (ok_page_more [sample_post 1 False False] True),
        EndReached ''t1'' (ok_page [sample_post 1 False False])]
       initial_state)))"
  by (simp add: handleLoadMore_def loadPosts_defs ok_page_def ok_page_more_def
      response_ok_def initial_state_def)

text \<open>
  C2, amended. The held posts have pairwise distinct identities after every operation
  (initial load, refresh, append, feedback tap) of a run that starts with such posts,
  provided the server does not repeat an identity: every returned page has pairwise
  distinct identities, and a page that is appended has none of the identities held.
\<close>

theorem C2_distinct_when_server_does_not_repeat:
  assumes "distinct (map post_id (posts st))" and "fresh_run es st"
  shows "distinct (map post_id (posts (run es st)))"
  using assms
proof (induction es arbitrary: st)
  case Nil
  then show ?case by simp
next
  case (Cons e es)
  from Cons.prems have "distinct (map post_id (posts (step e st)))"
    by (simp add: distinct_step)
  moreover from Cons.prems have "fresh_run es (step e st)"
    by simp
  ultimately show ?case
    using Cons.IH by simp
qed

theorem C2_witness:
  "distinct (map post_id (posts initial_state))
   \<and> fresh_run [Mount ''t0'' (ok_page_more [sample_post 1 False False] True),
                 EndReached ''t1'' (ok_page [sample_post 2 False False]),
                 TapLike 2 PutRejected] initial_state
   \<and> distinct (map post_id (posts (run
        [Mount ''t0'' (ok_page_more [sample_post 1 False False] True),
         EndReached ''t1'' (ok_page [sample_post 2 False False]),
         TapLike 2 PutRejected] initial_state)))"
proof -
  have h1: "distinct (map post_id (posts initial_state))"
    by (simp add: initial_state_def)
  have h2: "fresh_run [Mount ''t0'' (ok_page_more [sample_post 1 False False] True),
                 EndReached ''t1'' (ok_page [sample_post 2 False False]),
                 TapLike 2 PutRejected] initial_state"
    by (simp add: page_of_def ok_page_def ok_page_more_def response_ok_def posts_loadPosts
        sample_post_def)
  from C2_distinct_when_server_does_not_repeat [OF h1 h2] h1 h2
  show ?thesis by blast
qed

end
